theory Spec2Isabelle
  imports Complex_Main "HOL-Library.AList" "HOL-Library.Product_Lexorder"
begin

section \<open>BloodLine server: the request handlers of \<^verbatim>\<open>src/index.js\<close>\<close>

text \<open>
  The server is a set of Express route handlers over four MongoDB collections. Each
  handler is embedded as a function from the request and the database to an outcome and
  the database afterwards. The handlers of \<^verbatim>\<open>src/index.js\<close> are the ones
  modelled. The older revisions under \<^verbatim>\<open>src/unnamed\<close> hold subsets of the same
  routes with the same bodies, except that their profile update has no \<^verbatim>\<open>phone\<close>
  field; the user statistics and the monthly aggregation exist in \<^verbatim>\<open>src/index.js\<close>
  only.
\<close>

subsection \<open>Values and documents\<close>

text \<open>
  A value is what a parsed JSON body or a stored BSON document can hold: the JSON
  constructors, and the two BSON types the handlers create themselves, \<^verbatim>\<open>ObjectId\<close>
  (its 96 bits read as a number) and \<^verbatim>\<open>Date\<close> (milliseconds since the epoch).
  No modelled handler computes with a number, so the payload of \<open>JNum\<close> is only
  compared. JavaScript's \<^verbatim>\<open>undefined\<close> is not a value: reading a property gives a
  \<open>json option\<close>, and \<open>None\<close> is \<^verbatim>\<open>undefined\<close>.
\<close>

datatype json =
    JNull
  | JBool bool
  | JNum real
  | JStr string
  | JOid nat
  | JDate int
  | JArr "json list"
  | JObj "(string \<times> json) list"

text \<open>An object is its own properties in insertion order; \<open>map_of\<close> reads one.\<close>

type_synonym doc = "(string \<times> json) list"

text \<open>
  The driver is used with its default \<^verbatim>\<open>ignoreUndefined: false\<close>: a property whose
  value is \<^verbatim>\<open>undefined\<close> is serialised as \<^verbatim>\<open>null\<close>, in a document as in a filter
  or a \<^verbatim>\<open>$set\<close>.
\<close>

definition bson :: "json option \<Rightarrow> json" where
  "bson v = (case v of None \<Rightarrow> JNull | Some x \<Rightarrow> x)"

text \<open>
  \<^verbatim>\<open>JSON.stringify\<close> of a response object leaves out the properties that are
  \<^verbatim>\<open>undefined\<close>.
\<close>

definition stringify_props :: "(string \<times> json option) list \<Rightarrow> json" where
  "stringify_props ps =
     JObj (concat (map (\<lambda>(k, v). case v of None \<Rightarrow> [] | Some x \<Rightarrow> [(k, x)]) ps))"

subsection \<open>Request bodies\<close>

text \<open>
  \<^verbatim>\<open>express.json()\<close> is installed with its defaults, so it is strict: a parsed body is an
  object or an array, and a request without a JSON body has the empty object.
\<close>

datatype body = Obj doc | Arr "json list"

fun dec :: "nat \<Rightarrow> string" where
  "dec n = (if n < 10 then [''0123456789'' ! n]
            else dec (n div 10) @ [''0123456789'' ! (n mod 10)])"

declare dec.simps [simp del]

text \<open>The own enumerable properties: of an array, its elements under their indices.\<close>

definition own_props :: "body \<Rightarrow> doc" where
  "own_props b = (case b of
       Obj d \<Rightarrow> d
     | Arr xs \<Rightarrow> zip (map dec [0 ..< length xs]) xs)"

text \<open>\<^verbatim>\<open>body.k\<close> for a property name \<open>k\<close> that is not inherited.\<close>

definition member :: "body \<Rightarrow> string \<Rightarrow> json option" where
  "member b k = map_of (own_props b) k"

subsection \<open>Outcomes, the environment, the database\<close>

datatype exn = TypeError | BSONError | MongoServerError

text \<open>
  A handler either sends a response (status and body) or lets an exception escape; none
  of the routes but the payment one catches anything, so an escaped exception leaves the
  request without a response.
\<close>

datatype outcome = Sent nat json | Thrown exn

text \<open>
  The verified token carries the caller's email; a token of an account without one has
  \<^verbatim>\<open>undefined\<close> there.
\<close>

record decoded =
  email :: "string option"

text \<open>
  What a handler reads from outside the program. One reading of the clock stands for the
  \<^verbatim>\<open>new Date()\<close> calls of one request. A write can be refused by the store (a
  duplicate \<^verbatim>\<open>_id\<close> that the client put in the body, a value the server does not
  accept): then the driver throws. Reads are taken to succeed.
\<close>

record env =
  verifyIdToken :: "string \<Rightarrow> json + decoded"
  now :: int
  createPk :: nat
  write_ok :: bool
  js_Date :: "json option \<Rightarrow> int option"
  getMonth :: "int \<Rightarrow> nat"
  getFullYear :: "int \<Rightarrow> int"
  toDate :: "json \<Rightarrow> int option"
  month :: "int \<Rightarrow> nat"
  year :: "int \<Rightarrow> int"
  stripe :: "(json option \<Rightarrow> doc option) option"
  parseFloat :: "json option \<Rightarrow> json"

record request =
  bearer :: "string option"
  param :: string
  query_status :: "string option"
  body :: body

record db =
  usersCollection :: "doc list"
  requestsCollection :: "doc list"
  blogsCollection :: "doc list"
  paymentsCollection :: "doc list"

subsection \<open>The store operations the handlers call\<close>

text \<open>
  A filter is a list of equality conditions. A condition \<open>(k, v)\<close> holds of a document
  when its field \<open>k\<close> is \<open>v\<close> or is an array with \<open>v\<close> among its elements; a missing
  field is matched by \<^verbatim>\<open>null\<close> only. The handlers build filters from strings and
  \<^verbatim>\<open>ObjectId\<close>s; a filter value that is itself an operator document is not modelled.
\<close>

definition field_eq :: "doc \<Rightarrow> string \<Rightarrow> json \<Rightarrow> bool" where
  "field_eq d k v = (case map_of d k of
       None \<Rightarrow> v = JNull
     | Some x \<Rightarrow> x = v \<or> (case x of JArr xs \<Rightarrow> v \<in> set xs | _ \<Rightarrow> False))"

definition matches :: "doc \<Rightarrow> doc \<Rightarrow> bool" where
  "matches q d = list_all (\<lambda>(k, v). field_eq d k v) q"

definition findOne :: "doc list \<Rightarrow> doc \<Rightarrow> doc option" where
  "findOne c q = List.find (matches q) c"

definition find_toArray :: "doc list \<Rightarrow> doc \<Rightarrow> doc list" where
  "find_toArray c q = filter (matches q) c"

text \<open>
  \<^verbatim>\<open>insertOne\<close>: the driver gives the document an \<^verbatim>\<open>_id\<close> when it has none (or
  \<^verbatim>\<open>null\<close>), and the result names it.
\<close>

definition with_id :: "nat \<Rightarrow> doc \<Rightarrow> doc" where
  "with_id pk d = (case map_of d ''_id'' of
       None \<Rightarrow> AList.update ''_id'' (JOid pk) d
     | Some JNull \<Rightarrow> AList.update ''_id'' (JOid pk) d
     | Some _ \<Rightarrow> d)"

definition insertOne :: "env \<Rightarrow> doc list \<Rightarrow> doc \<Rightarrow> exn + json \<times> doc list" where
  "insertOne e c d =
     (if write_ok e
      then (let d' = with_id (createPk e) d
            in Inr (JObj [(''acknowledged'', JBool True), (''insertedId'', bson (map_of d' ''_id''))],
                    c @ [d']))
      else Inl MongoServerError)"

text \<open>\<^verbatim>\<open>updateOne\<close> with a \<^verbatim>\<open>$set\<close>: the first matching document gets the new values.\<close>

definition dollar_set :: "doc \<Rightarrow> doc \<Rightarrow> doc" where
  "dollar_set upd d = fold (\<lambda>(k, v). AList.update k v) upd d"

fun update_first :: "('a \<Rightarrow> bool) \<Rightarrow> ('a \<Rightarrow> 'a) \<Rightarrow> 'a list \<Rightarrow> 'a list" where
  "update_first P f [] = []"
| "update_first P f (x # xs) = (if P x then f x # xs else x # update_first P f xs)"

definition update_result :: "doc option \<Rightarrow> doc \<Rightarrow> json" where
  "update_result found upd = (case found of
       None \<Rightarrow> JObj [(''acknowledged'', JBool True), (''modifiedCount'', JNum 0),
                     (''upsertedId'', JNull), (''upsertedCount'', JNum 0),
                     (''matchedCount'', JNum 0)]
     | Some d \<Rightarrow> JObj [(''acknowledged'', JBool True),
                       (''modifiedCount'', JNum (if dollar_set upd d = d then 0 else 1)),
                       (''upsertedId'', JNull), (''upsertedCount'', JNum 0),
                       (''matchedCount'', JNum 1)])"

definition updateOne :: "env \<Rightarrow> doc list \<Rightarrow> doc \<Rightarrow> doc \<Rightarrow> exn + json \<times> doc list" where
  "updateOne e c q upd =
     (if write_ok e
      then Inr (update_result (findOne c q) upd,
                update_first (matches q) (dollar_set upd) c)
      else Inl MongoServerError)"

text \<open>
  \<^verbatim>\<open>new ObjectId(id)\<close> of a path parameter: 24 hexadecimal digits, or the constructor
  throws.
\<close>

definition hex_digit :: "char \<Rightarrow> nat option" where
  "hex_digit ch = map_of
     [(CHR ''0'', 0), (CHR ''1'', 1), (CHR ''2'', 2), (CHR ''3'', 3), (CHR ''4'', 4),
      (CHR ''5'', 5), (CHR ''6'', 6), (CHR ''7'', 7), (CHR ''8'', 8), (CHR ''9'', 9),
      (CHR ''a'', 10), (CHR ''b'', 11), (CHR ''c'', 12), (CHR ''d'', 13), (CHR ''e'', 14),
      (CHR ''f'', 15), (CHR ''A'', 10), (CHR ''B'', 11), (CHR ''C'', 12), (CHR ''D'', 13),
      (CHR ''E'', 14), (CHR ''F'', 15)] ch"

fun hex_value :: "nat \<Rightarrow> string \<Rightarrow> nat option" where
  "hex_value acc [] = Some acc"
| "hex_value acc (ch # cs) = (case hex_digit ch of
       None \<Rightarrow> None
     | Some h \<Rightarrow> hex_value (16 * acc + h) cs)"

definition ObjectId :: "string \<Rightarrow> exn + nat" where
  "ObjectId s = (if length s = 24
                 then (case hex_value 0 s of None \<Rightarrow> Inl BSONError | Some n \<Rightarrow> Inr n)
                 else Inl BSONError)"

subsection \<open>The token middleware\<close>

definition message :: "string \<Rightarrow> json" where
  "message m = JObj [(''message'', JStr m)]"

text \<open>
  \<open>bearer\<close> is the second word of the \<^verbatim>\<open>Authorization\<close> header, when there is
  one. Verifying it is the identity provider's work.
\<close>

definition verifyToken ::
  "env \<Rightarrow> request \<Rightarrow> (decoded \<Rightarrow> db \<Rightarrow> outcome \<times> db) \<Rightarrow> db \<Rightarrow> outcome \<times> db" where
  "verifyToken e req next st = (case bearer req of
       None \<Rightarrow> (Sent 401 (message ''Unauthorized Access!''), st)
     | Some token \<Rightarrow>
         if token = [] then (Sent 401 (message ''Unauthorized Access!''), st)
         else (case verifyIdToken e token of
                 Inl err \<Rightarrow>
                   (Sent 401 (JObj [(''message'', JStr ''Unauthorized Access!''), (''err'', err)]), st)
               | Inr user \<Rightarrow> next user st))"

text \<open>The email as it goes into a filter.\<close>

definition email_value :: "decoded \<Rightarrow> json" where
  "email_value user = bson (map_option JStr (email user))"

subsection \<open>User statistics\<close>

definition level :: "nat \<Rightarrow> string" where
  "level donations =
     (if donations > 10 then ''Gold'' else if donations > 5 then ''Silver'' else ''Bronze'')"

definition donorStats :: "db \<Rightarrow> string \<Rightarrow> doc list" where
  "donorStats st em =
     find_toArray (requestsCollection st) [(''donorEmail'', JStr em), (''status'', JStr ''done'')]"

definition requesterStats :: "db \<Rightarrow> string \<Rightarrow> doc list" where
  "requesterStats st em = find_toArray (requestsCollection st) [(''requesterEmail'', JStr em)]"

definition thisMonthDonations :: "env \<Rightarrow> doc list \<Rightarrow> nat" where
  "thisMonthDonations e ds =
     length (filter (\<lambda>d. case js_Date e (map_of d ''donationDate'') of
                            None \<Rightarrow> False
                          | Some t \<Rightarrow> getMonth e t = getMonth e (now e)
                                     \<and> getFullYear e t = getFullYear e (now e)) ds)"

definition get_user_stats :: "env \<Rightarrow> request \<Rightarrow> decoded \<Rightarrow> db \<Rightarrow> outcome \<times> db" where
  "get_user_stats e req user st =
     (if email user \<noteq> Some (param req) then (Sent 403 (message ''forbidden access''), st)
      else
        let donations = length (donorStats st (param req));
            requests = length (requesterStats st (param req));
            activeRequests = length (filter
               (\<lambda>r. map_of r ''status'' = Some (JStr ''pending'')
                   \<or> map_of r ''status'' = Some (JStr ''inprogress''))
               (requesterStats st (param req)))
        in (Sent 200 (JObj
              [(''donations'', JNum (real donations)),
               (''requests'', JNum (real requests)),
               (''activeRequests'', JNum (real activeRequests)),
               (''thisMonth'', JNum (real (thisMonthDonations e (donorStats st (param req))))),
               (''successRate'', JNum (if donations > 0 then 100 else 0)),
               (''level'', JStr (level donations)),
               (''helped'', JNum (real donations)),
               (''avgResponseTime'', JNum 2)]), st))"

definition route_user_stats :: "env \<Rightarrow> request \<Rightarrow> db \<Rightarrow> outcome \<times> db" where
  "route_user_stats e req st = verifyToken e req (get_user_stats e req) st"

subsection \<open>Donation requests\<close>

text \<open>
  \<^verbatim>\<open>if (status) query.status = status\<close>: an empty string is falsy. The query
  parameter is modelled for a plain string value.
\<close>

definition status_query :: "request \<Rightarrow> doc" where
  "status_query req = (case query_status req of
       None \<Rightarrow> []
     | Some s \<Rightarrow> if s = [] then [] else [(''status'', JStr s)])"

definition send_array :: "doc list \<Rightarrow> json" where
  "send_array ds = JArr (map JObj ds)"

text \<open>
  \<^verbatim>\<open>POST /donation-request\<close>. \<^verbatim>\<open>requester.status\<close> on the \<^verbatim>\<open>null\<close> of a
  lookup that found nothing throws a \<^verbatim>\<open>TypeError\<close>.
\<close>

definition post_donation_request :: "env \<Rightarrow> request \<Rightarrow> decoded \<Rightarrow> db \<Rightarrow> outcome \<times> db" where
  "post_donation_request e req user st =
     (case findOne (usersCollection st) [(''email'', email_value user)] of
        None \<Rightarrow> (Thrown TypeError, st)
      | Some requester \<Rightarrow>
          if map_of requester ''status'' = Some (JStr ''blocked'')
          then (Sent 403 (message ''Blocked users cannot create donation requests''), st)
          else (let newRequest = AList.update ''status'' (JStr ''pending'') (own_props (body req))
                in case insertOne e (requestsCollection st) newRequest of
                     Inl x \<Rightarrow> (Thrown x, st)
                   | Inr (result, c) \<Rightarrow> (Sent 200 result, st\<lparr>requestsCollection := c\<rparr>)))"

definition route_post_donation_request :: "env \<Rightarrow> request \<Rightarrow> db \<Rightarrow> outcome \<times> db" where
  "route_post_donation_request e req st = verifyToken e req (post_donation_request e req) st"

text \<open>\<^verbatim>\<open>GET /donation-requests/:email\<close>.\<close>

definition get_donation_requests :: "request \<Rightarrow> decoded \<Rightarrow> db \<Rightarrow> outcome \<times> db" where
  "get_donation_requests req user st =
     (if email user \<noteq> Some (param req) then (Sent 403 (message ''forbidden access''), st)
      else (Sent 200 (send_array (find_toArray (requestsCollection st)
                        ((''requesterEmail'', JStr (param req)) # status_query req))), st))"

definition route_get_donation_requests :: "env \<Rightarrow> request \<Rightarrow> db \<Rightarrow> outcome \<times> db" where
  "route_get_donation_requests e req st = verifyToken e req (get_donation_requests req) st"

text \<open>\<^verbatim>\<open>PUT /donation-request/:id\<close>: the nine fields of the \<^verbatim>\<open>$set\<close>.\<close>

definition content_keys :: "string list" where
  "content_keys = [''recipientName'', ''recipientDistrict'', ''recipientUpazila'',
     ''hospitalName'', ''fullAddress'', ''bloodGroup'', ''donationDate'', ''donationTime'',
     ''requestMessage'']"

definition pick :: "string list \<Rightarrow> body \<Rightarrow> doc" where
  "pick ks b = map (\<lambda>k. (k, bson (member b k))) ks"

definition write_by_id :: "env \<Rightarrow> request \<Rightarrow> doc \<Rightarrow> db \<Rightarrow> outcome \<times> db" where
  "write_by_id e req upd st =
     (case ObjectId (param req) of
        Inl x \<Rightarrow> (Thrown x, st)
      | Inr oid \<Rightarrow>
          (case updateOne e (requestsCollection st) [(''_id'', JOid oid)] upd of
             Inl x \<Rightarrow> (Thrown x, st)
           | Inr (result, c) \<Rightarrow> (Sent 200 result, st\<lparr>requestsCollection := c\<rparr>)))"

definition put_donation_request :: "env \<Rightarrow> request \<Rightarrow> db \<Rightarrow> outcome \<times> db" where
  "put_donation_request e req st = write_by_id e req (pick content_keys (body req)) st"

definition route_put_donation_request :: "env \<Rightarrow> request \<Rightarrow> db \<Rightarrow> outcome \<times> db" where
  "route_put_donation_request e req st =
     verifyToken e req (\<lambda>user. put_donation_request e req) st"

text \<open>\<^verbatim>\<open>PUT /donation-request/donate/:id\<close>.\<close>

definition put_donate :: "env \<Rightarrow> request \<Rightarrow> db \<Rightarrow> outcome \<times> db" where
  "put_donate e req st =
     write_by_id e req
       [(''status'', JStr ''inprogress''),
        (''donorName'', bson (member (body req) ''donorName'')),
        (''donorEmail'', bson (member (body req) ''donorEmail''))] st"

definition route_put_donate :: "env \<Rightarrow> request \<Rightarrow> db \<Rightarrow> outcome \<times> db" where
  "route_put_donate e req st = verifyToken e req (\<lambda>user. put_donate e req) st"

text \<open>\<^verbatim>\<open>GET /all-blood-donation-requests\<close>: \<^verbatim>\<open>user.role\<close> is read without a guard.\<close>

definition get_all_blood_donation_requests :: "request \<Rightarrow> decoded \<Rightarrow> db \<Rightarrow> outcome \<times> db" where
  "get_all_blood_donation_requests req user st =
     (case findOne (usersCollection st) [(''email'', email_value user)] of
        None \<Rightarrow> (Thrown TypeError, st)
      | Some u \<Rightarrow>
          if map_of u ''role'' \<noteq> Some (JStr ''admin'') \<and> map_of u ''role'' \<noteq> Some (JStr ''volunteer'')
          then (Sent 403 (message ''forbidden access''), st)
          else (Sent 200 (send_array (find_toArray (requestsCollection st) (status_query req))), st))"

definition route_get_all_blood_donation_requests :: "env \<Rightarrow> request \<Rightarrow> db \<Rightarrow> outcome \<times> db" where
  "route_get_all_blood_donation_requests e req st =
     verifyToken e req (get_all_blood_donation_requests req) st"

subsection \<open>Users\<close>

text \<open>\<^verbatim>\<open>POST /users\<close>, a public route.\<close>

definition post_users :: "env \<Rightarrow> request \<Rightarrow> db \<Rightarrow> outcome \<times> db" where
  "post_users e req st =
     (case findOne (usersCollection st) [(''email'', bson (member (body req) ''email''))] of
        Some existingUser \<Rightarrow>
          (Sent 200 (JObj [(''message'', JStr ''user already exists''), (''insertedId'', JNull)]), st)
      | None \<Rightarrow>
          (let newUser = AList.update ''timestamp'' (JDate (now e))
                 (AList.update ''status'' (JStr ''active'')
                   (AList.update ''role'' (JStr ''donor'') (own_props (body req))))
           in case insertOne e (usersCollection st) newUser of
                Inl x \<Rightarrow> (Thrown x, st)
              | Inr (result, c) \<Rightarrow> (Sent 200 result, st\<lparr>usersCollection := c\<rparr>)))"

text \<open>\<^verbatim>\<open>GET /users/role/:email\<close>.\<close>

definition get_users_role :: "request \<Rightarrow> decoded \<Rightarrow> db \<Rightarrow> outcome \<times> db" where
  "get_users_role req user st =
     (if email user \<noteq> Some (param req) then (Sent 403 (message ''forbidden access''), st)
      else (Sent 200 (stringify_props
              [(''role'', case findOne (usersCollection st) [(''email'', JStr (param req))] of
                            None \<Rightarrow> None
                          | Some result \<Rightarrow> map_of result ''role'')]), st))"

definition route_get_users_role :: "env \<Rightarrow> request \<Rightarrow> db \<Rightarrow> outcome \<times> db" where
  "route_get_users_role e req st = verifyToken e req (get_users_role req) st"

text \<open>
  \<^verbatim>\<open>GET /user/:email\<close> and \<^verbatim>\<open>PATCH /user/:email\<close>: neither handler reads
  \<^verbatim>\<open>req.user\<close>. \<^verbatim>\<open>res.send(null)\<close> is a 200 with no content.
\<close>

definition get_user :: "request \<Rightarrow> db \<Rightarrow> outcome \<times> db" where
  "get_user req st =
     (Sent 200 (case findOne (usersCollection st) [(''email'', JStr (param req))] of
                  None \<Rightarrow> JNull
                | Some result \<Rightarrow> JObj result), st)"

definition route_get_user :: "env \<Rightarrow> request \<Rightarrow> db \<Rightarrow> outcome \<times> db" where
  "route_get_user e req st = verifyToken e req (\<lambda>user. get_user req) st"

definition profile_keys :: "string list" where
  "profile_keys = [''name'', ''avatar'', ''district'', ''upazila'', ''bloodGroup'', ''phone'']"

definition patch_user :: "env \<Rightarrow> request \<Rightarrow> db \<Rightarrow> outcome \<times> db" where
  "patch_user e req st =
     (case updateOne e (usersCollection st) [(''email'', JStr (param req))]
             (pick profile_keys (body req)) of
        Inl x \<Rightarrow> (Thrown x, st)
      | Inr (result, c) \<Rightarrow> (Sent 200 result, st\<lparr>usersCollection := c\<rparr>))"

definition route_patch_user :: "env \<Rightarrow> request \<Rightarrow> db \<Rightarrow> outcome \<times> db" where
  "route_patch_user e req st = verifyToken e req (\<lambda>user. patch_user e req) st"

subsection \<open>Payments\<close>

text \<open>
  \<^verbatim>\<open>POST /payments/save-session\<close>. \<open>stripe\<close> is \<open>None\<close> when no secret key is
  configured; otherwise it is \<^verbatim>\<open>stripe.checkout.sessions.retrieve\<close>, which gives the
  session or throws (\<open>None\<close>). Everything after it runs inside the \<^verbatim>\<open>try\<close>, so each
  exception becomes the 500 of the \<^verbatim>\<open>catch\<close>.
\<close>

definition get_prop :: "json option \<Rightarrow> string \<Rightarrow> exn + json option" where
  "get_prop v k = (case v of
       None \<Rightarrow> Inl TypeError
     | Some JNull \<Rightarrow> Inl TypeError
     | Some (JObj d) \<Rightarrow> Inr (map_of d k)
     | Some (JArr xs) \<Rightarrow> Inr (member (Arr xs) k)
     | Some _ \<Rightarrow> Inr None)"

definition payment_of :: "env \<Rightarrow> doc \<Rightarrow> json option \<Rightarrow> exn + doc" where
  "payment_of e session sessionId =
     (case get_prop (map_of session ''metadata'') ''donorName'' of
        Inl x \<Rightarrow> Inl x
      | Inr donorName \<Rightarrow>
     (case get_prop (map_of session ''metadata'') ''donorEmail'' of
        Inl x \<Rightarrow> Inl x
      | Inr donorEmail \<Rightarrow>
     (case get_prop (map_of session ''metadata'') ''amount'' of
        Inl x \<Rightarrow> Inl x
      | Inr amount \<Rightarrow>
          Inr [(''name'', bson donorName), (''email'', bson donorEmail),
               (''amount'', parseFloat e amount), (''transactionId'', bson sessionId),
               (''date'', JDate (now e))])))"

definition save_session :: "env \<Rightarrow> request \<Rightarrow> db \<Rightarrow> outcome \<times> db" where
  "save_session e req st =
     (let sessionId = member (body req) ''sessionId'' in
      case stripe e of
        None \<Rightarrow> (Sent 500 (message ''Stripe error''), st)
      | Some retrieve \<Rightarrow>
          (case retrieve sessionId of
             None \<Rightarrow> (Sent 500 (message ''Error verifying payment''), st)
           | Some session \<Rightarrow>
               if map_of session ''payment_status'' = Some (JStr ''paid'')
               then (case findOne (paymentsCollection st) [(''transactionId'', bson sessionId)] of
                       Some existing \<Rightarrow>
                         (Sent 200 (JObj [(''message'', JStr ''Payment already saved''),
                                          (''insertedId'', JNull)]), st)
                     | None \<Rightarrow>
                         (case payment_of e session sessionId of
                            Inl x \<Rightarrow> (Sent 500 (message ''Error verifying payment''), st)
                          | Inr payment \<Rightarrow>
                              (case insertOne e (paymentsCollection st) payment of
                                 Inl x \<Rightarrow> (Sent 500 (message ''Error verifying payment''), st)
                               | Inr (result, c) \<Rightarrow>
                                   (Sent 200 result, st\<lparr>paymentsCollection := c\<rparr>))))
               else (Sent 400 (message ''Payment not paid''), st)))"

definition route_save_session :: "env \<Rightarrow> request \<Rightarrow> db \<Rightarrow> outcome \<times> db" where
  "route_save_session e req st = verifyToken e req (\<lambda>user. save_session e req) st"

subsection \<open>The monthly aggregation of \<^verbatim>\<open>GET /admin-stats\<close>\<close>

text \<open>
  The pipeline is \<^verbatim>\<open>$match {}\<close>, a \<^verbatim>\<open>$project\<close> of month and year, a \<^verbatim>\<open>$group\<close>
  that counts, and a \<^verbatim>\<open>$sort\<close> by year and month. \<^verbatim>\<open>$convert\<close> takes
  \<^verbatim>\<open>onNull\<close> for a missing or \<^verbatim>\<open>null\<close> input and \<^verbatim>\<open>onError\<close> when the server
  cannot turn the input into a date; both are \<^verbatim>\<open>new Date()\<close>. What the server can
  convert, and its calendar, are \<open>toDate\<close>, \<open>month\<close> and \<open>year\<close> of the environment.
  The handler computes \<^verbatim>\<open>monthlyStats\<close> and leaves it out of its response.
\<close>

definition convert :: "env \<Rightarrow> json option \<Rightarrow> int" where
  "convert e input = (case input of
       None \<Rightarrow> now e
     | Some JNull \<Rightarrow> now e
     | Some v \<Rightarrow> (case toDate e v of None \<Rightarrow> now e | Some t \<Rightarrow> t))"

definition project :: "env \<Rightarrow> doc \<Rightarrow> nat \<times> int" where
  "project e d = (month e (convert e (map_of d ''donationDate'')),
                  year e (convert e (map_of d ''donationDate'')))"

fun count_in :: "'k \<Rightarrow> ('k \<times> nat) list \<Rightarrow> ('k \<times> nat) list" where
  "count_in k [] = [(k, 1)]"
| "count_in k ((k', n) # rows) =
     (if k = k' then (k', Suc n) # rows else (k', n) # count_in k rows)"

definition group_count :: "'k list \<Rightarrow> ('k \<times> nat) list" where
  "group_count ks = fold count_in ks []"

definition monthlyStats :: "env \<Rightarrow> db \<Rightarrow> ((nat \<times> int) \<times> nat) list" where
  "monthlyStats e st =
     sort_key (\<lambda>((m, y), n). (y, m)) (group_count (map (project e) (requestsCollection st)))"

section \<open>Reading outcomes\<close>

text \<open>
  A route behind \<^verbatim>\<open>verifyToken\<close> runs its handler for a caller whose bearer token the
  identity provider accepted, with the decoded token as \<^verbatim>\<open>req.user\<close>.
\<close>

definition authenticated :: "env \<Rightarrow> request \<Rightarrow> decoded \<Rightarrow> bool" where
  "authenticated e req user = (case bearer req of
       None \<Rightarrow> False
     | Some token \<Rightarrow> token \<noteq> [] \<and> verifyIdToken e token = Inr user)"

text \<open>A property of the object a response carries.\<close>

definition sent_field :: "outcome \<Rightarrow> string \<Rightarrow> json option" where
  "sent_field out k = (case out of Sent code (JObj d) \<Rightarrow> map_of d k | _ \<Rightarrow> None)"

section \<open>Sequences of calls\<close>

text \<open>
  The database after a sequence of \<^verbatim>\<open>POST /users\<close> calls, and after a sequence of
  \<^verbatim>\<open>POST /payments/save-session\<close> calls, each call with its own environment and
  request.
\<close>

fun post_users_seq :: "(env \<times> request) list \<Rightarrow> db \<Rightarrow> db" where
  "post_users_seq [] st = st"
| "post_users_seq ((e, req) # calls) st = post_users_seq calls (snd (post_users e req st))"

fun save_session_seq :: "(env \<times> request) list \<Rightarrow> db \<Rightarrow> db" where
  "save_session_seq [] st = st"
| "save_session_seq ((e, req) # calls) st = save_session_seq calls (snd (route_save_session e req st))"

text \<open>The two bodies that report a record already there.\<close>

definition already_exists :: json where
  "already_exists = JObj [(''message'', JStr ''user already exists''), (''insertedId'', JNull)]"

definition already_saved :: json where
  "already_saved = JObj [(''message'', JStr ''Payment already saved''), (''insertedId'', JNull)]"

text \<open>The caller replays session \<open>t\<close> and the processor still reports it paid.\<close>

definition paid_session :: "env \<Rightarrow> string \<Rightarrow> bool" where
  "paid_session e t = (case stripe e of
       None \<Rightarrow> False
     | Some retrieve \<Rightarrow> (case retrieve (Some (JStr t)) of
          None \<Rightarrow> False
        | Some session \<Rightarrow> map_of session ''payment_status'' = Some (JStr ''paid'')))"

text \<open>How many requests the projection sends to a bucket \<open>(month, year)\<close>.\<close>

definition bucket_size :: "env \<Rightarrow> db \<Rightarrow> nat \<times> int \<Rightarrow> nat" where
  "bucket_size e st b = length (filter (\<lambda>d. project e d = b) (requestsCollection st))"

section \<open>Example data\<close>

text \<open>
  A small deployment on which the theorems below are instantiated: an identity provider
  whose tokens are the email they stand for, a payment processor that knows one paid
  session, two users and two donation requests.
\<close>

definition example_stripe :: "json option \<Rightarrow> doc option" where
  "example_stripe sessionId =
     (if sessionId = Some (JStr ''cs_1'')
      then Some [(''payment_status'', JStr ''paid''),
                 (''metadata'', JObj [(''donorName'', JStr ''Dan''),
                                      (''donorEmail'', JStr ''dan@x.org''),
                                      (''amount'', JStr ''25'')])]
      else None)"

definition example_env :: env where
  "example_env = \<lparr>
     verifyIdToken = (\<lambda>token. if token = ''expired'' then Inl JNull else Inr \<lparr>email = Some token\<rparr>),
     now = 1764547200000,
     createPk = 255,
     write_ok = True,
     js_Date = (\<lambda>v. None),
     getMonth = (\<lambda>t. 11),
     getFullYear = (\<lambda>t. 2025),
     toDate = (\<lambda>v. if v = JStr ''2024-02-10'' then Some 1707523200000 else None),
     month = (\<lambda>t. if t = 1707523200000 then 2 else 12),
     year = (\<lambda>t. if t = 1707523200000 then 2024 else 2025),
     stripe = Some example_stripe,
     parseFloat = (\<lambda>v. JNum 25) \<rparr>"

definition done_requests :: "nat \<Rightarrow> doc list" where
  "done_requests n = map (\<lambda>i. [(''_id'', JOid i), (''requesterEmail'', JStr ''rita@x.org''),
       (''status'', JStr ''done''), (''donorEmail'', JStr ''dan@x.org'')]) [0 ..< n]"

definition stats_request :: request where
  "stats_request = \<lparr>bearer = Some ''dan@x.org'', param = ''dan@x.org'', query_status = None,
     body = Obj []\<rparr>"

definition stats_db :: "nat \<Rightarrow> db" where
  "stats_db n = \<lparr>usersCollection = [], requestsCollection = done_requests n,
     blogsCollection = [], paymentsCollection = []\<rparr>"

definition example_db :: db where
  "example_db = \<lparr>
     usersCollection =
       [[(''_id'', JOid 1), (''email'', JStr ''alice@x.org''), (''name'', JStr ''Alice''),
         (''role'', JStr ''donor''), (''status'', JStr ''active'')],
        [(''_id'', JOid 2), (''email'', JStr ''bob@x.org''), (''name'', JStr ''Bob''),
         (''role'', JStr ''donor''), (''status'', JStr ''blocked'')]],
     requestsCollection =
       [[(''_id'', JOid 16), (''requesterEmail'', JStr ''alice@x.org''),
         (''recipientName'', JStr ''Rae''), (''donationDate'', JStr ''2024-02-10''),
         (''status'', JStr ''done''), (''donorName'', JStr ''Dan''),
         (''donorEmail'', JStr ''dan@x.org'')],
        [(''_id'', JOid 17), (''requesterEmail'', JStr ''alice@x.org''),
         (''recipientName'', JStr ''Sam''), (''status'', JStr ''pending'')]],
     blogsCollection = [],
     paymentsCollection = [] \<rparr>"

definition create_request :: "string \<Rightarrow> request" where
  "create_request caller = \<lparr>bearer = Some caller, param = [], query_status = None,
     body = Obj [(''recipientName'', JStr ''Tom''), (''status'', JStr ''done'')]\<rparr>"

definition donate_request :: "string \<Rightarrow> string \<Rightarrow> request" where
  "donate_request donor_name donor_email = \<lparr>bearer = Some donor_email, param = ''000000000000000000000010'',
     query_status = None,
     body = Obj [(''donorName'', JStr donor_name), (''donorEmail'', JStr donor_email)]\<rparr>"

definition edit_request :: request where
  "edit_request = \<lparr>bearer = Some ''mallory@x.org'', param = ''000000000000000000000010'',
     query_status = None,
     body = Obj [(''recipientName'', JStr ''Uma''), (''status'', JStr ''canceled''),
                 (''donorEmail'', JStr ''mallory@x.org''), (''requesterEmail'', JStr ''mallory@x.org'')]\<rparr>"

definition signup_request :: "string \<Rightarrow> string \<Rightarrow> request" where
  "signup_request name em = \<lparr>bearer = None, param = [], query_status = None,
     body = Obj [(''name'', JStr name), (''email'', JStr em), (''role'', JStr ''admin'')]\<rparr>"

definition payment_request :: "string \<Rightarrow> request" where
  "payment_request sessionId = \<lparr>bearer = Some ''dan@x.org'', param = [], query_status = None,
     body = Obj [(''sessionId'', JStr sessionId)]\<rparr>"

definition profile_request :: request where
  "profile_request = \<lparr>bearer = Some ''mallory@x.org'', param = ''alice@x.org'',
     query_status = None, body = Obj [(''name'', JStr ''Mallory was here'')]\<rparr>"

section \<open>Properties of the middleware and the store operations\<close>

lemma verifyToken_authenticated:
  "authenticated e req user \<Longrightarrow> verifyToken e req next st = next user st"
  by (auto simp: authenticated_def verifyToken_def split: option.splits)

lemma map_of_with_id: "k \<noteq> ''_id'' \<Longrightarrow> map_of (with_id pk d) k = map_of d k"
  by (simp add: with_id_def update_conv' split: option.splits json.splits)

lemma update_first_split:
  "List.find P xs = Some d \<Longrightarrow>
   \<exists>pre post. xs = pre @ d # post \<and> (\<forall>x\<in>set pre. \<not> P x) \<and> P d \<and>
      update_first P f xs = pre @ f d # post"
proof (induction xs)
  case Nil
  then show ?case by simp
next
  case (Cons x xs)
  show ?case
  proof (cases "P x")
    case True
    with Cons.prems have "x = d" by simp
    with True show ?thesis by (intro exI[of _ "[]"] exI[of _ xs]) simp
  next
    case False
    with Cons obtain pre post where "xs = pre @ d # post" "\<forall>x\<in>set pre. \<not> P x" "P d"
      "update_first P f xs = pre @ f d # post" by auto
    with False show ?thesis by (intro exI[of _ "x # pre"] exI[of _ post]) simp
  qed
qed

lemma find_first_match:
  "(\<forall>x\<in>set pre. \<not> P x) \<Longrightarrow> P y \<Longrightarrow> List.find P (pre @ y # post) = Some y"
  by (induction pre) auto

lemma dollar_set_other: "k \<notin> fst ` set upd \<Longrightarrow> map_of (dollar_set upd d) k = map_of d k"
  unfolding dollar_set_def
  by (induction upd arbitrary: d) (auto simp: update_conv')

lemma dollar_set_in:
  "distinct (map fst upd) \<Longrightarrow> (k, v) \<in> set upd \<Longrightarrow> map_of (dollar_set upd d) k = Some v"
proof (induction upd arbitrary: d)
  case Nil
  then show ?case by simp
next
  case (Cons a upd)
  obtain k' v' where a: "a = (k', v')" by (cases a)
  show ?case
  proof (cases "(k, v) \<in> set upd")
    case True
    with Cons a show ?thesis by (simp add: dollar_set_def)
  next
    case False
    with Cons.prems a have kv: "k' = k" "v' = v" by auto
    with Cons.prems a have "k \<notin> fst ` set upd" by simp
    then have "map_of (dollar_set upd (AList.update k v d)) k = map_of (AList.update k v d) k"
      by (rule dollar_set_other)
    then show ?thesis using a kv by (simp add: dollar_set_def update_conv')
  qed
qed

lemma matches_same_fields:
  "(\<forall>k\<in>fst ` set q. map_of d' k = map_of d k) \<Longrightarrow> matches q d' = matches q d"
  by (induction q) (auto simp: matches_def field_eq_def)

lemma write_by_id_found:
  assumes "ObjectId (param req) = Inr oid"
    and "findOne (requestsCollection st) [(''_id'', JOid oid)] = Some d"
    and "''_id'' \<notin> fst ` set upd"
  shows "\<exists>pre post. requestsCollection st = pre @ d # post \<and>
     write_by_id e req upd st =
       (if write_ok e
        then (Sent 200 (update_result (Some d) upd),
              st\<lparr>requestsCollection := pre @ dollar_set upd d # post\<rparr>)
        else (Thrown MongoServerError, st)) \<and>
     findOne (pre @ dollar_set upd d # post) [(''_id'', JOid oid)] = Some (dollar_set upd d)"
proof -
  let ?P = "matches [(''_id'', JOid oid)]"
  from assms(2) obtain pre post where
    s: "requestsCollection st = pre @ d # post" and n: "\<forall>x\<in>set pre. \<not> ?P x" and m: "?P d"
    and u: "update_first ?P (dollar_set upd) (requestsCollection st) = pre @ dollar_set upd d # post"
    unfolding findOne_def using update_first_split [of ?P "requestsCollection st" d "dollar_set upd"]
    by blast
  have "?P (dollar_set upd d)"
    using m assms(3) matches_same_fields [of "[(''_id'', JOid oid)]" "dollar_set upd d" d]
    by (simp add: dollar_set_other)
  with n have "findOne (pre @ dollar_set upd d # post) [(''_id'', JOid oid)] = Some (dollar_set upd d)"
    unfolding findOne_def by (rule find_first_match)
  moreover have "write_by_id e req upd st =
       (if write_ok e
        then (Sent 200 (update_result (Some d) upd),
              st\<lparr>requestsCollection := pre @ dollar_set upd d # post\<rparr>)
        else (Thrown MongoServerError, st))"
    using assms(1,2) u by (simp add: write_by_id_def updateOne_def)
  ultimately show ?thesis using s by blast
qed

lemma find_append_Some: "List.find P xs = Some d \<Longrightarrow> List.find P (xs @ ys) = Some d"
  by (induction xs) (auto split: if_splits)

lemma find_append_None: "List.find P xs = None \<Longrightarrow> List.find P (xs @ ys) = List.find P ys"
  by (induction xs) (auto split: if_splits)

lemma filter_find_None: "List.find P xs = None \<Longrightarrow> filter P xs = []"
  by (induction xs) (auto split: if_splits)

lemma post_users_existing:
  assumes "member (body req) ''email'' = Some (JStr em)"
    and "findOne (usersCollection st) [(''email'', JStr em)] = Some u"
  shows "post_users e req st = (Sent 200 already_exists, st)"
  using assms by (simp add: post_users_def bson_def already_exists_def)

lemma post_users_keeps:
  assumes "findOne (usersCollection st) q = Some u"
  shows "findOne (usersCollection (snd (post_users e req st))) q = Some u"
proof -
  have "usersCollection (snd (post_users e req st)) = usersCollection st \<or>
      (\<exists>d. usersCollection (snd (post_users e req st)) = usersCollection st @ [d])"
    by (auto simp: post_users_def insertOne_def Let_def split: option.splits)
  with assms show ?thesis
    unfolding findOne_def by (auto simp: find_append_Some)
qed

lemma post_users_seq_keeps:
  "findOne (usersCollection st) q = Some u \<Longrightarrow>
   findOne (usersCollection (post_users_seq calls st)) q = Some u"
proof (induction calls arbitrary: st)
  case Nil
  then show ?case by simp
next
  case (Cons c calls)
  obtain e req where c: "c = (e, req)" by (cases c)
  from Cons.prems have "findOne (usersCollection (snd (post_users e req st))) q = Some u"
    by (rule post_users_keeps)
  then show ?case unfolding c by (simp add: Cons.IH)
qed

lemma save_session_appends:
  "paymentsCollection (snd (save_session e req st)) = paymentsCollection st \<or>
   (\<exists>d. paymentsCollection (snd (save_session e req st)) = paymentsCollection st @ [d])"
  by (auto simp: save_session_def insertOne_def Let_def split: option.splits sum.splits)

lemma route_save_session_appends:
  "paymentsCollection (snd (route_save_session e req st)) = paymentsCollection st \<or>
   (\<exists>d. paymentsCollection (snd (route_save_session e req st)) = paymentsCollection st @ [d])"
proof (cases "\<exists>user. authenticated e req user")
  case True
  then obtain user where "authenticated e req user" ..
  then have "route_save_session e req st = save_session e req st"
    by (simp add: route_save_session_def verifyToken_authenticated)
  then show ?thesis using save_session_appends [of e req st] by simp
next
  case False
  then have "snd (route_save_session e req st) = st"
    by (auto simp: route_save_session_def verifyToken_def authenticated_def
        split: option.splits sum.splits)
  then show ?thesis by simp
qed

lemma route_save_session_keeps:
  assumes "findOne (paymentsCollection st) q = Some p"
  shows "findOne (paymentsCollection (snd (route_save_session e req st))) q = Some p"
  using assms route_save_session_appends [of e req st]
  unfolding findOne_def by (auto simp: find_append_Some)

lemma save_session_seq_keeps:
  "findOne (paymentsCollection st) q = Some p \<Longrightarrow>
   findOne (paymentsCollection (save_session_seq calls st)) q = Some p"
proof (induction calls arbitrary: st)
  case Nil
  then show ?case by simp
next
  case (Cons c calls)
  obtain e req where c: "c = (e, req)" by (cases c)
  from Cons.prems have "findOne (paymentsCollection (snd (route_save_session e req st))) q = Some p"
    by (rule route_save_session_keeps)
  then show ?case unfolding c by (simp add: Cons.IH)
qed

lemma save_session_recorded:
  assumes "member (body req) ''sessionId'' = Some (JStr t)"
    and "findOne (paymentsCollection st) [(''transactionId'', JStr t)] = Some p"
  shows "snd (save_session e req st) = st"
    and "paid_session e t \<Longrightarrow> save_session e req st = (Sent 200 already_saved, st)"
  using assms
  by (auto simp: save_session_def paid_session_def bson_def already_saved_def Let_def
      split: option.splits)

text \<open>
  The three routes that compare the token email with the path email refuse any other
  caller and touch nothing.
\<close>

lemma self_only_guarded:
  assumes "authenticated e req user" and "email user \<noteq> Some (param req)"
  shows "route_get_users_role e req st = (Sent 403 (message ''forbidden access''), st)"
    and "route_get_donation_requests e req st = (Sent 403 (message ''forbidden access''), st)"
    and "route_user_stats e req st = (Sent 403 (message ''forbidden access''), st)"
  using assms
  by (simp_all add: route_get_users_role_def route_get_donation_requests_def route_user_stats_def
      verifyToken_authenticated get_users_role_def get_donation_requests_def get_user_stats_def)

subsection \<open>Grouping and sorting\<close>

lemma keys_count_in: "fst ` set (count_in k rows) = insert k (fst ` set rows)"
proof (induction rows)
  case Nil
  then show ?case by simp
next
  case (Cons r rows)
  obtain k' n where r: "r = (k', n)" by (cases r)
  show ?case
  proof (cases "k = k'")
    case True
    then show ?thesis unfolding r by auto
  next
    case False
    then have "fst ` set (count_in k (r # rows)) = insert k' (fst ` set (count_in k rows))"
      unfolding r by simp
    also have "\<dots> = insert k (fst ` set (r # rows))"
      unfolding Cons.IH r by auto
    finally show ?thesis .
  qed
qed

lemma distinct_count_in:
  "distinct (map fst rows) \<Longrightarrow> distinct (map fst (count_in k rows))"
proof (induction rows)
  case Nil
  then show ?case by simp
next
  case (Cons r rows)
  obtain k' n where r: "r = (k', n)" by (cases r)
  from Cons show ?case
    unfolding r using keys_count_in [of k rows] by (auto simp del: image_insert)
qed

lemma map_of_count_in:
  "map_of (count_in k rows) b =
     (if b = k then Some (case map_of rows k of None \<Rightarrow> 1 | Some n \<Rightarrow> Suc n)
      else map_of rows b)"
  by (induction rows) auto

lemma sum_count_in: "sum_list (map snd (count_in k rows)) = Suc (sum_list (map snd rows))"
  by (induction rows) auto

lemma distinct_fold_count_in:
  "distinct (map fst rows) \<Longrightarrow> distinct (map fst (fold count_in ks rows))"
  by (induction ks arbitrary: rows) (simp_all add: distinct_count_in)

lemma sum_fold_count_in:
  "sum_list (map snd (fold count_in ks rows)) = length ks + sum_list (map snd rows)"
  by (induction ks arbitrary: rows) (simp_all add: sum_count_in)

lemma map_of_fold_count_in:
  "map_of (fold count_in ks rows) b =
     (if length (filter (\<lambda>k. k = b) ks) = 0 then map_of rows b
      else Some (length (filter (\<lambda>k. k = b) ks)
                 + (case map_of rows b of None \<Rightarrow> 0 | Some n \<Rightarrow> n)))"
proof (induction ks arbitrary: rows)
  case Nil
  then show ?case by simp
next
  case (Cons k ks)
  show ?case
    by (simp add: Cons.IH map_of_count_in split: option.splits)
qed

lemma map_of_group_count:
  "map_of (group_count ks) b =
     (if length (filter (\<lambda>k. k = b) ks) = 0 then None
      else Some (length (filter (\<lambda>k. k = b) ks)))"
  by (simp add: group_count_def map_of_fold_count_in)

lemma distinct_insort_key:
  "distinct (map g (insort_key f x xs)) = distinct (map g (x # xs))"
  by (induction xs) (auto simp: set_insort_key)

lemma distinct_map_sort_key: "distinct (map g (sort_key f xs)) = distinct (map g xs)"
  by (induction xs) (simp_all add: distinct_insort_key)

lemma sum_insort_key: "sum_list (map h (insort_key f x xs)) = h x + sum_list (map h xs)"
  for h :: "'a \<Rightarrow> nat"
  by (induction xs) auto

lemma sum_sort_key: "sum_list (map h (sort_key f xs)) = sum_list (map h xs)"
  for h :: "'a \<Rightarrow> nat"
  by (induction xs) (simp_all add: sum_insort_key)

lemma map_of_sort_key:
  assumes "distinct (map fst xs)"
  shows "map_of (sort_key f xs) = map_of xs"
proof -
  have "distinct (map fst (sort_key f xs))"
    using assms by (simp add: distinct_map_sort_key)
  with assms show ?thesis
    by (simp add: map_of_inject_set)
qed

section \<open>The claims\<close>

text \<open>
  C1. For a caller whose token is accepted, whose profile exists and is not blocked, and
  for every request body, \<^verbatim>\<open>POST /donation-request\<close> answers 200 and appends exactly
  one document to the donation requests when the store accepts the write. The status of
  that document is \<^verbatim>\<open>pending\<close> whatever status the body carried; every other field
  except \<^verbatim>\<open>_id\<close> is the body's.
\<close>

theorem create_request_status_pending:
  assumes "authenticated e req user"
    and "findOne (usersCollection st) [(''email'', email_value user)] = Some requester"
    and "map_of requester ''status'' \<noteq> Some (JStr ''blocked'')"
    and "write_ok e"
  shows "\<exists>result newRequest.
     route_post_donation_request e req st =
       (Sent 200 result, st\<lparr>requestsCollection := requestsCollection st @ [newRequest]\<rparr>) \<and>
     map_of newRequest ''status'' = Some (JStr ''pending'') \<and>
     (\<forall>k. k \<noteq> ''status'' \<and> k \<noteq> ''_id'' \<longrightarrow> map_of newRequest k = member (body req) k)"
proof -
  let ?d = "with_id (createPk e) (AList.update ''status'' (JStr ''pending'') (own_props (body req)))"
  have "route_post_donation_request e req st =
      (Sent 200 (JObj [(''acknowledged'', JBool True), (''insertedId'', bson (map_of ?d ''_id''))]),
       st\<lparr>requestsCollection := requestsCollection st @ [?d]\<rparr>)"
    using assms
    by (simp add: route_post_donation_request_def verifyToken_authenticated
        post_donation_request_def insertOne_def Let_def)
  moreover have "map_of ?d ''status'' = Some (JStr ''pending'')"
    by (simp add: map_of_with_id update_conv')
  moreover have "\<forall>k. k \<noteq> ''status'' \<and> k \<noteq> ''_id'' \<longrightarrow> map_of ?d k = member (body req) k"
    by (simp add: map_of_with_id update_conv' member_def)
  ultimately show ?thesis by blast
qed

theorem create_request_status_pending_witness:
  "authenticated example_env (create_request ''alice@x.org'') \<lparr>email = Some ''alice@x.org''\<rparr> \<and>
   member (body (create_request ''alice@x.org'')) ''status'' = Some (JStr ''done'') \<and>
   map_option (\<lambda>d. map_of d ''status'')
     (findOne (requestsCollection (snd (route_post_donation_request example_env
        (create_request ''alice@x.org'') example_db))) [(''recipientName'', JStr ''Tom'')])
     = Some (Some (JStr ''pending''))"
proof -
  have a: "authenticated example_env (create_request ''alice@x.org'') \<lparr>email = Some ''alice@x.org''\<rparr>"
    by (simp add: authenticated_def example_env_def create_request_def)
  have f: "findOne (usersCollection example_db) [(''email'', email_value \<lparr>email = Some ''alice@x.org''\<rparr>)]
      = Some (hd (usersCollection example_db))"
    by code_simp
  have s: "map_of (hd (usersCollection example_db)) ''status'' \<noteq> Some (JStr ''blocked'')"
    by code_simp
  have w: "write_ok example_env" by (simp add: example_env_def)
  from create_request_status_pending [OF a f s w] obtain result newRequest where
    r: "route_post_donation_request example_env (create_request ''alice@x.org'') example_db =
       (Sent 200 result, example_db\<lparr>requestsCollection := requestsCollection example_db @ [newRequest]\<rparr>)"
    and p: "map_of newRequest ''status'' = Some (JStr ''pending'')"
    and k: "\<forall>k. k \<noteq> ''status'' \<and> k \<noteq> ''_id'' \<longrightarrow>
        map_of newRequest k = member (body (create_request ''alice@x.org'')) k"
    by blast
  from k have t: "map_of newRequest ''recipientName'' = Some (JStr ''Tom'')"
    by (simp add: create_request_def member_def own_props_def)
  have "findOne (requestsCollection example_db @ [newRequest]) [(''recipientName'', JStr ''Tom'')]
      = Some newRequest"
    using t by (simp add: findOne_def example_db_def matches_def field_eq_def)
  with r p a show ?thesis
    by (simp add: create_request_def member_def own_props_def)
qed

text \<open>
  C2. A caller whose stored profile has status \<^verbatim>\<open>blocked\<close> gets 403 from
  \<^verbatim>\<open>POST /donation-request\<close> and the database is left as it was.
\<close>

theorem blocked_caller_forbidden:
  assumes "authenticated e req user"
    and "findOne (usersCollection st) [(''email'', email_value user)] = Some requester"
    and "map_of requester ''status'' = Some (JStr ''blocked'')"
  shows "route_post_donation_request e req st =
     (Sent 403 (message ''Blocked users cannot create donation requests''), st)"
  using assms
  by (simp add: route_post_donation_request_def verifyToken_authenticated
      post_donation_request_def)

theorem blocked_caller_forbidden_witness:
  "authenticated example_env (create_request ''bob@x.org'') \<lparr>email = Some ''bob@x.org''\<rparr> \<and>
   route_post_donation_request example_env (create_request ''bob@x.org'') example_db =
     (Sent 403 (message ''Blocked users cannot create donation requests''), example_db)"
proof -
  have a: "authenticated example_env (create_request ''bob@x.org'') \<lparr>email = Some ''bob@x.org''\<rparr>"
    by (simp add: authenticated_def example_env_def create_request_def)
  have f: "findOne (usersCollection example_db) [(''email'', email_value \<lparr>email = Some ''bob@x.org''\<rparr>)]
      = Some (usersCollection example_db ! 1)"
    by code_simp
  have s: "map_of (usersCollection example_db ! 1) ''status'' = Some (JStr ''blocked'')"
    by code_simp
  from blocked_caller_forbidden [OF a f s] a show ?thesis by simp
qed

text \<open>
  C3. The claim is that each of five routes refuses a caller whose token email is not
  the path email. Three of them do (\<open>self_only_guarded\<close> above). The two profile
  routes, \<^verbatim>\<open>GET /user/:email\<close> and \<^verbatim>\<open>PATCH /user/:email\<close>, never compare the two:
  with the token of one user and the path of another, the first answers 200 with the
  other user's stored document and the second answers 200 and overwrites the other
  user's profile fields.
\<close>

theorem profile_routes_not_self_only:
  "authenticated example_env profile_request \<lparr>email = Some ''mallory@x.org''\<rparr> \<and>
   param profile_request = ''alice@x.org'' \<and>
   route_get_user example_env profile_request example_db
     = (Sent 200 (JObj (hd (usersCollection example_db))), example_db) \<and>
   map_option (\<lambda>d. map_of d ''name'')
     (findOne (usersCollection example_db) [(''email'', JStr ''alice@x.org'')])
     = Some (Some (JStr ''Alice'')) \<and>
   fst (route_patch_user example_env profile_request example_db)
     = Sent 200 (JObj [(''acknowledged'', JBool True), (''modifiedCount'', JNum 1),
          (''upsertedId'', JNull), (''upsertedCount'', JNum 0), (''matchedCount'', JNum 1)]) \<and>
   map_option (\<lambda>d. map_of d ''name'')
     (findOne (usersCollection (snd (route_patch_user example_env profile_request example_db)))
        [(''email'', JStr ''alice@x.org'')])
     = Some (Some (JStr ''Mallory was here''))"
  by (simp add: authenticated_def example_env_def profile_request_def example_db_def
      route_get_user_def route_patch_user_def verifyToken_def get_user_def patch_user_def
      updateOne_def update_result_def findOne_def matches_def field_eq_def dollar_set_def
      pick_def profile_keys_def member_def own_props_def bson_def)

text \<open>
  C4. For every stored donation request, whatever its status, the donate action answers
  200 when the store accepts the write, sets the status to \<^verbatim>\<open>inprogress\<close> and the two
  donor fields to what the body supplies (\<^verbatim>\<open>null\<close> for a field it leaves out), and
  changes nothing else: no other field of the request, no other request. The request is
  found under its id afterwards, so the action can be applied again.
\<close>

theorem donate_any_status:
  assumes "authenticated e req user"
    and "ObjectId (param req) = Inr oid"
    and "findOne (requestsCollection st) [(''_id'', JOid oid)] = Some d"
    and "write_ok e"
  shows "\<exists>result pre post d'.
     route_put_donate e req st = (Sent 200 result, st\<lparr>requestsCollection := pre @ d' # post\<rparr>) \<and>
     requestsCollection st = pre @ d # post \<and>
     findOne (pre @ d' # post) [(''_id'', JOid oid)] = Some d' \<and>
     map_of d' ''status'' = Some (JStr ''inprogress'') \<and>
     map_of d' ''donorName'' = Some (bson (member (body req) ''donorName'')) \<and>
     map_of d' ''donorEmail'' = Some (bson (member (body req) ''donorEmail'')) \<and>
     (\<forall>k. k \<noteq> ''status'' \<and> k \<noteq> ''donorName'' \<and> k \<noteq> ''donorEmail'' \<longrightarrow> map_of d' k = map_of d k)"
proof -
  let ?upd = "[(''status'', JStr ''inprogress''),
        (''donorName'', bson (member (body req) ''donorName'')),
        (''donorEmail'', bson (member (body req) ''donorEmail''))]"
  have i: "''_id'' \<notin> fst ` set ?upd" by simp
  from write_by_id_found [OF assms(2,3) i, of e] assms(4) obtain pre post where
    s: "requestsCollection st = pre @ d # post"
    and w: "write_by_id e req ?upd st = (Sent 200 (update_result (Some d) ?upd),
              st\<lparr>requestsCollection := pre @ dollar_set ?upd d # post\<rparr>)"
    and f: "findOne (pre @ dollar_set ?upd d # post) [(''_id'', JOid oid)] = Some (dollar_set ?upd d)"
    by auto
  have r: "route_put_donate e req st = (Sent 200 (update_result (Some d) ?upd),
              st\<lparr>requestsCollection := pre @ dollar_set ?upd d # post\<rparr>)"
    using assms(1) w by (simp add: route_put_donate_def verifyToken_authenticated put_donate_def)
  have d: "distinct (map fst ?upd)" by simp
  have 1: "map_of (dollar_set ?upd d) ''status'' = Some (JStr ''inprogress'')"
    by (rule dollar_set_in [OF d]) simp
  have 2: "map_of (dollar_set ?upd d) ''donorName'' = Some (bson (member (body req) ''donorName''))"
    by (rule dollar_set_in [OF d]) simp
  have 3: "map_of (dollar_set ?upd d) ''donorEmail'' = Some (bson (member (body req) ''donorEmail''))"
    by (rule dollar_set_in [OF d]) simp
  have 4: "\<forall>k. k \<noteq> ''status'' \<and> k \<noteq> ''donorName'' \<and> k \<noteq> ''donorEmail'' \<longrightarrow>
      map_of (dollar_set ?upd d) k = map_of d k"
    by (simp add: dollar_set_other)
  from r s f 1 2 3 4 show ?thesis by blast
qed

theorem donate_any_status_witness:
  "authenticated example_env (donate_request ''Eve'' ''eve@x.org'') \<lparr>email = Some ''eve@x.org''\<rparr> \<and>
   ObjectId (param (donate_request ''Eve'' ''eve@x.org'')) = Inr 16 \<and>
   map_option (\<lambda>d. (map_of d ''status'', map_of d ''donorName''))
     (findOne (requestsCollection example_db) [(''_id'', JOid 16)])
     = Some (Some (JStr ''done''), Some (JStr ''Dan'')) \<and>
   map_option (\<lambda>d. (map_of d ''status'', map_of d ''donorName''))
     (findOne (requestsCollection (snd (route_put_donate example_env
        (donate_request ''Eve'' ''eve@x.org'') example_db))) [(''_id'', JOid 16)])
     = Some (Some (JStr ''inprogress''), Some (JStr ''Eve''))"
proof -
  let ?req = "donate_request ''Eve'' ''eve@x.org''"
  have a: "authenticated example_env ?req \<lparr>email = Some ''eve@x.org''\<rparr>"
    by (simp add: authenticated_def example_env_def donate_request_def)
  have o: "ObjectId (param ?req) = Inr 16"
    by (simp add: donate_request_def ObjectId_def hex_digit_def)
  have f: "findOne (requestsCollection example_db) [(''_id'', JOid 16)]
      = Some (hd (requestsCollection example_db))"
    by (simp add: findOne_def example_db_def matches_def field_eq_def)
  have b: "map_option (\<lambda>d. (map_of d ''status'', map_of d ''donorName''))
     (findOne (requestsCollection example_db) [(''_id'', JOid 16)])
     = Some (Some (JStr ''done''), Some (JStr ''Dan''))"
    by (simp add: findOne_def example_db_def matches_def field_eq_def)
  have w: "write_ok example_env" by (simp add: example_env_def)
  from donate_any_status [OF a o f w] obtain result pre post d' where
    r: "route_put_donate example_env ?req example_db =
          (Sent 200 result, example_db\<lparr>requestsCollection := pre @ d' # post\<rparr>)"
    and g: "findOne (pre @ d' # post) [(''_id'', JOid 16)] = Some d'"
    and s: "map_of d' ''status'' = Some (JStr ''inprogress'')"
    and n: "map_of d' ''donorName'' = Some (bson (member (body ?req) ''donorName''))"
    by (elim exE conjE)
  have "bson (member (body ?req) ''donorName'') = JStr ''Eve''"
    by (simp add: donate_request_def member_def own_props_def bson_def)
  with n have n': "map_of d' ''donorName'' = Some (JStr ''Eve'')" by simp
  from r have q: "requestsCollection (snd (route_put_donate example_env ?req example_db))
      = pre @ d' # post" by simp
  have "map_option (\<lambda>d. (map_of d ''status'', map_of d ''donorName''))
     (findOne (requestsCollection (snd (route_put_donate example_env ?req example_db)))
        [(''_id'', JOid 16)])
     = Some (Some (JStr ''inprogress''), Some (JStr ''Eve''))"
    unfolding q g using s n' by simp
  with a o b show ?thesis by blast
qed

text \<open>
  C5. When no stored user matches the email of the body, \<^verbatim>\<open>POST /users\<close> answers 200
  and appends one document when the store accepts the write: its role is \<^verbatim>\<open>donor\<close>,
  its status \<^verbatim>\<open>active\<close>, its timestamp the time of the call, its email the body's.
  After that, and after any further sequence of \<^verbatim>\<open>POST /users\<close> calls, every
  \<^verbatim>\<open>POST /users\<close> with the same email answers with \<^verbatim>\<open>insertedId: null\<close> and
  leaves the database as it was.
\<close>

theorem post_users_idempotent:
  assumes "member (body req) ''email'' = Some (JStr em)"
    and "findOne (usersCollection st) [(''email'', JStr em)] = None"
    and "write_ok e"
  shows "\<exists>result newUser.
     post_users e req st =
       (Sent 200 result, st\<lparr>usersCollection := usersCollection st @ [newUser]\<rparr>) \<and>
     map_of newUser ''role'' = Some (JStr ''donor'') \<and>
     map_of newUser ''status'' = Some (JStr ''active'') \<and>
     map_of newUser ''timestamp'' = Some (JDate (now e)) \<and>
     map_of newUser ''email'' = Some (JStr em) \<and>
     (\<forall>calls e' req'. member (body req') ''email'' = Some (JStr em) \<longrightarrow>
        post_users e' req'
          (post_users_seq calls (st\<lparr>usersCollection := usersCollection st @ [newUser]\<rparr>)) =
        (Sent 200 already_exists,
         post_users_seq calls (st\<lparr>usersCollection := usersCollection st @ [newUser]\<rparr>)))"
proof -
  let ?u = "with_id (createPk e) (AList.update ''timestamp'' (JDate (now e))
                 (AList.update ''status'' (JStr ''active'')
                   (AList.update ''role'' (JStr ''donor'') (own_props (body req)))))"
  let ?st = "st\<lparr>usersCollection := usersCollection st @ [?u]\<rparr>"
  have r: "post_users e req st =
      (Sent 200 (JObj [(''acknowledged'', JBool True), (''insertedId'', bson (map_of ?u ''_id''))]), ?st)"
    using assms by (simp add: post_users_def bson_def insertOne_def Let_def)
  have f: "map_of ?u ''role'' = Some (JStr ''donor'')"
    "map_of ?u ''status'' = Some (JStr ''active'')"
    "map_of ?u ''timestamp'' = Some (JDate (now e))"
    by (simp_all add: map_of_with_id update_conv')
  have m: "map_of ?u ''email'' = Some (JStr em)"
    using assms(1) by (simp add: map_of_with_id update_conv' member_def)
  then have "matches [(''email'', JStr em)] ?u"
    by (simp add: matches_def field_eq_def)
  with assms(2) have g: "findOne (usersCollection ?st) [(''email'', JStr em)] = Some ?u"
    by (simp add: findOne_def find_append_None)
  have "post_users e' req' (post_users_seq calls ?st) = (Sent 200 already_exists, post_users_seq calls ?st)"
    if "member (body req') ''email'' = Some (JStr em)" for calls e' req'
    using that post_users_seq_keeps [OF g, of calls] by (rule post_users_existing)
  with r f m show ?thesis by blast
qed

theorem post_users_idempotent_witness:
  "member (body (signup_request ''Cy'' ''cy@x.org'')) ''role'' = Some (JStr ''admin'') \<and>
   findOne (usersCollection example_db) [(''email'', JStr ''cy@x.org'')] = None \<and>
   map_option (\<lambda>d. (map_of d ''role'', map_of d ''status''))
     (findOne (usersCollection (snd (post_users example_env (signup_request ''Cy'' ''cy@x.org'')
        example_db))) [(''email'', JStr ''cy@x.org'')])
     = Some (Some (JStr ''donor''), Some (JStr ''active'')) \<and>
   post_users example_env (signup_request ''Cyrus'' ''cy@x.org'')
     (snd (post_users example_env (signup_request ''Cy'' ''cy@x.org'') example_db))
     = (Sent 200 already_exists,
        snd (post_users example_env (signup_request ''Cy'' ''cy@x.org'') example_db))"
proof -
  let ?req = "signup_request ''Cy'' ''cy@x.org''"
  have m: "member (body ?req) ''email'' = Some (JStr ''cy@x.org'')"
    by (simp add: signup_request_def member_def own_props_def)
  have m': "member (body (signup_request ''Cyrus'' ''cy@x.org'')) ''email'' = Some (JStr ''cy@x.org'')"
    by (simp add: signup_request_def member_def own_props_def)
  have ro: "member (body ?req) ''role'' = Some (JStr ''admin'')"
    by (simp add: signup_request_def member_def own_props_def)
  have f: "findOne (usersCollection example_db) [(''email'', JStr ''cy@x.org'')] = None"
    by (simp add: findOne_def example_db_def matches_def field_eq_def)
  have w: "write_ok example_env" by (simp add: example_env_def)
  from post_users_idempotent [OF m f w] obtain result newUser where
    r: "post_users example_env ?req example_db =
       (Sent 200 result, example_db\<lparr>usersCollection := usersCollection example_db @ [newUser]\<rparr>)"
    and 1: "map_of newUser ''role'' = Some (JStr ''donor'')"
    and 2: "map_of newUser ''status'' = Some (JStr ''active'')"
    and 3: "map_of newUser ''email'' = Some (JStr ''cy@x.org'')"
    and rep: "\<forall>calls e' req'. member (body req') ''email'' = Some (JStr ''cy@x.org'') \<longrightarrow>
        post_users e' req'
          (post_users_seq calls (example_db\<lparr>usersCollection := usersCollection example_db @ [newUser]\<rparr>)) =
        (Sent 200 already_exists,
         post_users_seq calls (example_db\<lparr>usersCollection := usersCollection example_db @ [newUser]\<rparr>))"
    by (elim exE conjE)
  from r have q: "snd (post_users example_env ?req example_db) =
      example_db\<lparr>usersCollection := usersCollection example_db @ [newUser]\<rparr>" by simp
  have g: "findOne (usersCollection example_db @ [newUser]) [(''email'', JStr ''cy@x.org'')] = Some newUser"
    using 3 by (simp add: findOne_def example_db_def matches_def field_eq_def)
  have a: "map_option (\<lambda>d. (map_of d ''role'', map_of d ''status''))
     (findOne (usersCollection (snd (post_users example_env ?req example_db)))
        [(''email'', JStr ''cy@x.org'')])
     = Some (Some (JStr ''donor''), Some (JStr ''active''))"
    unfolding q using g 1 2 by simp
  from rep [THEN spec, of "[]", THEN spec, of example_env, THEN spec,
      of "signup_request ''Cyrus'' ''cy@x.org''"] m'
  have b: "post_users example_env (signup_request ''Cyrus'' ''cy@x.org'')
     (snd (post_users example_env ?req example_db))
     = (Sent 200 already_exists, snd (post_users example_env ?req example_db))"
    unfolding q by simp
  from ro f a b show ?thesis by blast
qed

text \<open>
  C6. For a session the processor reports paid (and that carries its metadata object),
  with no ledger entry under its id yet, \<^verbatim>\<open>POST /payments/save-session\<close> answers 200
  and appends one entry when the store accepts the write; it is then the only entry that
  matches the id. After that, and after any further sequence of calls of the route, every
  authenticated replay of the same id leaves the database as it was, and answers with
  \<^verbatim>\<open>insertedId: null\<close> whenever the processor still reports the session paid.
\<close>

theorem save_session_idempotent:
  assumes "authenticated e req user"
    and "member (body req) ''sessionId'' = Some (JStr t)"
    and "stripe e = Some retrieve"
    and "retrieve (Some (JStr t)) = Some session"
    and "map_of session ''payment_status'' = Some (JStr ''paid'')"
    and "map_of session ''metadata'' = Some (JObj metadata)"
    and "findOne (paymentsCollection st) [(''transactionId'', JStr t)] = None"
    and "write_ok e"
  shows "\<exists>result payment.
     route_save_session e req st =
       (Sent 200 result, st\<lparr>paymentsCollection := paymentsCollection st @ [payment]\<rparr>) \<and>
     map_of payment ''transactionId'' = Some (JStr t) \<and>
     find_toArray (paymentsCollection st @ [payment]) [(''transactionId'', JStr t)] = [payment] \<and>
     (\<forall>calls e' req' user'.
        authenticated e' req' user' \<and> member (body req') ''sessionId'' = Some (JStr t) \<longrightarrow>
        snd (route_save_session e' req'
          (save_session_seq calls (st\<lparr>paymentsCollection := paymentsCollection st @ [payment]\<rparr>)))
          = save_session_seq calls (st\<lparr>paymentsCollection := paymentsCollection st @ [payment]\<rparr>) \<and>
        (paid_session e' t \<longrightarrow>
           fst (route_save_session e' req'
             (save_session_seq calls (st\<lparr>paymentsCollection := paymentsCollection st @ [payment]\<rparr>)))
             = Sent 200 already_saved))"
proof -
  let ?p = "[(''name'', bson (map_of metadata ''donorName'')),
             (''email'', bson (map_of metadata ''donorEmail'')),
             (''amount'', parseFloat e (map_of metadata ''amount'')),
             (''transactionId'', JStr t), (''date'', JDate (now e))]"
  let ?d = "with_id (createPk e) ?p"
  let ?st = "st\<lparr>paymentsCollection := paymentsCollection st @ [?d]\<rparr>"
  have po: "payment_of e session (Some (JStr t)) = Inr ?p"
    using assms(6) by (simp add: payment_of_def get_prop_def bson_def)
  have r: "route_save_session e req st =
      (Sent 200 (JObj [(''acknowledged'', JBool True), (''insertedId'', bson (map_of ?d ''_id''))]), ?st)"
    using assms(1,2,3,4,5,7,8) po
    by (simp add: route_save_session_def verifyToken_authenticated save_session_def bson_def
        insertOne_def Let_def)
  have m: "map_of ?d ''transactionId'' = Some (JStr t)"
    by (simp add: map_of_with_id)
  then have mm: "matches [(''transactionId'', JStr t)] ?d"
    by (simp add: matches_def field_eq_def)
  with assms(7) have g: "findOne (paymentsCollection ?st) [(''transactionId'', JStr t)] = Some ?d"
    by (simp add: findOne_def find_append_None)
  have one: "find_toArray (paymentsCollection st @ [?d]) [(''transactionId'', JStr t)] = [?d]"
    using assms(7) mm by (simp add: find_toArray_def findOne_def filter_find_None)
  have rep: "snd (route_save_session e' req' (save_session_seq calls ?st)) = save_session_seq calls ?st \<and>
      (paid_session e' t \<longrightarrow>
         fst (route_save_session e' req' (save_session_seq calls ?st)) = Sent 200 already_saved)"
    if "authenticated e' req' user' \<and> member (body req') ''sessionId'' = Some (JStr t)"
    for calls e' req' user'
  proof -
    from that have a: "authenticated e' req' user'"
      and b: "member (body req') ''sessionId'' = Some (JStr t)" by simp_all
    have k: "findOne (paymentsCollection (save_session_seq calls ?st)) [(''transactionId'', JStr t)] = Some ?d"
      using g by (rule save_session_seq_keeps)
    have "route_save_session e' req' (save_session_seq calls ?st)
        = save_session e' req' (save_session_seq calls ?st)"
      using a by (simp add: route_save_session_def verifyToken_authenticated)
    with save_session_recorded [OF b k, of e'] show ?thesis by simp
  qed
  from r m one rep show ?thesis by blast
qed

theorem save_session_idempotent_witness:
  "authenticated example_env (payment_request ''cs_1'') \<lparr>email = Some ''dan@x.org''\<rparr> \<and>
   paid_session example_env ''cs_1'' \<and>
   paymentsCollection example_db = [] \<and>
   map (\<lambda>d. map_of d ''transactionId'')
     (paymentsCollection (snd (route_save_session example_env (payment_request ''cs_1'') example_db)))
     = [Some (JStr ''cs_1'')] \<and>
   route_save_session example_env (payment_request ''cs_1'')
     (snd (route_save_session example_env (payment_request ''cs_1'') example_db))
     = (Sent 200 already_saved,
        snd (route_save_session example_env (payment_request ''cs_1'') example_db))"
proof -
  let ?req = "payment_request ''cs_1''"
  let ?session = "[(''payment_status'', JStr ''paid''),
                 (''metadata'', JObj [(''donorName'', JStr ''Dan''),
                                      (''donorEmail'', JStr ''dan@x.org''),
                                      (''amount'', JStr ''25'')])]"
  have a: "authenticated example_env ?req \<lparr>email = Some ''dan@x.org''\<rparr>"
    by (simp add: authenticated_def example_env_def payment_request_def)
  have m: "member (body ?req) ''sessionId'' = Some (JStr ''cs_1'')"
    by (simp add: payment_request_def member_def own_props_def)
  have s: "stripe example_env = Some example_stripe" by (simp add: example_env_def)
  have t: "example_stripe (Some (JStr ''cs_1'')) = Some ?session"
    by (simp add: example_stripe_def)
  have p: "map_of ?session ''payment_status'' = Some (JStr ''paid'')" by simp
  have md: "map_of ?session ''metadata'' = Some (JObj [(''donorName'', JStr ''Dan''),
                                      (''donorEmail'', JStr ''dan@x.org''),
                                      (''amount'', JStr ''25'')])" by simp
  have e: "paymentsCollection example_db = []" by (simp add: example_db_def)
  then have f: "findOne (paymentsCollection example_db) [(''transactionId'', JStr ''cs_1'')] = None"
    by (simp add: findOne_def)
  have w: "write_ok example_env" by (simp add: example_env_def)
  have ps: "paid_session example_env ''cs_1''"
    by (simp add: paid_session_def s t)
  from save_session_idempotent [OF a m s t p md f w] obtain result payment where
    r: "route_save_session example_env ?req example_db =
       (Sent 200 result, example_db\<lparr>paymentsCollection := paymentsCollection example_db @ [payment]\<rparr>)"
    and 1: "map_of payment ''transactionId'' = Some (JStr ''cs_1'')"
    and rep: "\<forall>calls e' req' user'.
        authenticated e' req' user' \<and> member (body req') ''sessionId'' = Some (JStr ''cs_1'') \<longrightarrow>
        snd (route_save_session e' req'
          (save_session_seq calls (example_db\<lparr>paymentsCollection := paymentsCollection example_db @ [payment]\<rparr>)))
          = save_session_seq calls (example_db\<lparr>paymentsCollection := paymentsCollection example_db @ [payment]\<rparr>) \<and>
        (paid_session e' ''cs_1'' \<longrightarrow>
           fst (route_save_session e' req'
             (save_session_seq calls (example_db\<lparr>paymentsCollection := paymentsCollection example_db @ [payment]\<rparr>)))
             = Sent 200 already_saved)"
    by (elim exE conjE)
  from r have q: "snd (route_save_session example_env ?req example_db) =
      example_db\<lparr>paymentsCollection := paymentsCollection example_db @ [payment]\<rparr>" by simp
  have c: "map (\<lambda>d. map_of d ''transactionId'')
     (paymentsCollection (snd (route_save_session example_env ?req example_db)))
     = [Some (JStr ''cs_1'')]"
    unfolding q using 1 e by simp
  from rep [THEN spec, of "[]", THEN spec, of example_env, THEN spec, of ?req, THEN spec,
      of "\<lparr>email = Some ''dan@x.org''\<rparr>"] a m ps
  have "snd (route_save_session example_env ?req (snd (route_save_session example_env ?req example_db)))
      = snd (route_save_session example_env ?req example_db)"
    and "fst (route_save_session example_env ?req (snd (route_save_session example_env ?req example_db)))
      = Sent 200 already_saved"
    unfolding q by simp_all
  then have b: "route_save_session example_env ?req (snd (route_save_session example_env ?req example_db))
     = (Sent 200 already_saved, snd (route_save_session example_env ?req example_db))"
    by (simp add: prod_eq_iff)
  from a ps e c b show ?thesis by blast
qed

text \<open>
  C7. For every stored donation request and every body, the content update changes no
  field outside the nine of its \<^verbatim>\<open>$set\<close> and no other document: status, donor name,
  donor email and requester email stay as they were even when the body carries them.
  When the store accepts the write each of the nine fields becomes the body's value.
\<close>

theorem content_update_frame:
  assumes "authenticated e req user"
    and "ObjectId (param req) = Inr oid"
    and "findOne (requestsCollection st) [(''_id'', JOid oid)] = Some d"
  shows "\<exists>out pre post d'.
     route_put_donation_request e req st = (out, st\<lparr>requestsCollection := pre @ d' # post\<rparr>) \<and>
     requestsCollection st = pre @ d # post \<and>
     (\<forall>k. k \<notin> set content_keys \<longrightarrow> map_of d' k = map_of d k) \<and>
     map_of d' ''status'' = map_of d ''status'' \<and>
     map_of d' ''donorName'' = map_of d ''donorName'' \<and>
     map_of d' ''donorEmail'' = map_of d ''donorEmail'' \<and>
     map_of d' ''requesterEmail'' = map_of d ''requesterEmail'' \<and>
     (write_ok e \<longrightarrow>
        out = Sent 200 (update_result (Some d) (pick content_keys (body req))) \<and>
        findOne (pre @ d' # post) [(''_id'', JOid oid)] = Some d' \<and>
        (\<forall>k\<in>set content_keys. map_of d' k = Some (bson (member (body req) k))))"
proof -
  let ?upd = "pick content_keys (body req)"
  have keys: "fst ` set ?upd = set content_keys"
    by (force simp: pick_def)
  have i: "''_id'' \<notin> fst ` set ?upd"
    unfolding keys by (simp add: content_keys_def)
  from write_by_id_found [OF assms(2,3) i, of e] obtain pre post where
    s: "requestsCollection st = pre @ d # post"
    and w: "write_by_id e req ?upd st =
       (if write_ok e
        then (Sent 200 (update_result (Some d) ?upd),
              st\<lparr>requestsCollection := pre @ dollar_set ?upd d # post\<rparr>)
        else (Thrown MongoServerError, st))"
    and f: "findOne (pre @ dollar_set ?upd d # post) [(''_id'', JOid oid)] = Some (dollar_set ?upd d)"
    by blast
  have r: "route_put_donation_request e req st = write_by_id e req ?upd st"
    using assms(1)
    by (simp add: route_put_donation_request_def verifyToken_authenticated put_donation_request_def)
  show ?thesis
  proof (cases "write_ok e")
    case True
    let ?d = "dollar_set ?upd d"
    have o: "\<forall>k. k \<notin> set content_keys \<longrightarrow> map_of ?d k = map_of d k"
      using keys by (simp add: dollar_set_other)
    have dist: "distinct (map fst ?upd)"
      by (simp add: pick_def content_keys_def comp_def)
    have n: "\<forall>k\<in>set content_keys. map_of ?d k = Some (bson (member (body req) k))"
    proof
      fix k assume "k \<in> set content_keys"
      then have "(k, bson (member (body req) k)) \<in> set ?upd" by (auto simp: pick_def)
      with dist show "map_of ?d k = Some (bson (member (body req) k))" by (rule dollar_set_in)
    qed
    have "route_put_donation_request e req st =
        (Sent 200 (update_result (Some d) ?upd), st\<lparr>requestsCollection := pre @ ?d # post\<rparr>)"
      using r w True by simp
    moreover from o have "map_of ?d ''status'' = map_of d ''status''"
      "map_of ?d ''donorName'' = map_of d ''donorName''"
      "map_of ?d ''donorEmail'' = map_of d ''donorEmail''"
      "map_of ?d ''requesterEmail'' = map_of d ''requesterEmail''"
      by (simp_all add: content_keys_def)
    ultimately show ?thesis using s f o n True by blast
  next
    case False
    have "st = st\<lparr>requestsCollection := pre @ d # post\<rparr>" using s by simp
    with r w False have "route_put_donation_request e req st =
        (Thrown MongoServerError, st\<lparr>requestsCollection := pre @ d # post\<rparr>)"
      by simp
    with s False show ?thesis by blast
  qed
qed

theorem content_update_frame_witness:
  "authenticated example_env edit_request \<lparr>email = Some ''mallory@x.org''\<rparr> \<and>
   ObjectId (param edit_request) = Inr 16 \<and>
   member (body edit_request) ''status'' = Some (JStr ''canceled'') \<and>
   map_option (\<lambda>d. (map_of d ''recipientName'', map_of d ''status'', map_of d ''donorEmail'',
                    map_of d ''requesterEmail''))
     (findOne (requestsCollection (snd (route_put_donation_request example_env edit_request
        example_db))) [(''_id'', JOid 16)])
     = Some (Some (JStr ''Uma''), Some (JStr ''done''), Some (JStr ''dan@x.org''),
             Some (JStr ''alice@x.org''))"
proof -
  have a: "authenticated example_env edit_request \<lparr>email = Some ''mallory@x.org''\<rparr>"
    by (simp add: authenticated_def example_env_def edit_request_def)
  have o: "ObjectId (param edit_request) = Inr 16"
    by (simp add: edit_request_def ObjectId_def hex_digit_def)
  have f: "findOne (requestsCollection example_db) [(''_id'', JOid 16)]
      = Some (hd (requestsCollection example_db))"
    by (simp add: findOne_def example_db_def matches_def field_eq_def)
  have w: "write_ok example_env" by (simp add: example_env_def)
  have m: "member (body edit_request) ''status'' = Some (JStr ''canceled'')"
    by (simp add: edit_request_def member_def own_props_def)
  from content_update_frame [OF a o f] w obtain out pre post d' where
    r: "route_put_donation_request example_env edit_request example_db =
          (out, example_db\<lparr>requestsCollection := pre @ d' # post\<rparr>)"
    and g: "findOne (pre @ d' # post) [(''_id'', JOid 16)] = Some d'"
    and k: "\<forall>k\<in>set content_keys. map_of d' k = Some (bson (member (body edit_request) k))"
    and s: "map_of d' ''status'' = map_of (hd (requestsCollection example_db)) ''status''"
    and de: "map_of d' ''donorEmail'' = map_of (hd (requestsCollection example_db)) ''donorEmail''"
    and re: "map_of d' ''requesterEmail'' = map_of (hd (requestsCollection example_db)) ''requesterEmail''"
    by blast
  from k have "map_of d' ''recipientName'' = Some (bson (member (body edit_request) ''recipientName''))"
    by (simp add: content_keys_def)
  then have n: "map_of d' ''recipientName'' = Some (JStr ''Uma'')"
    by (simp add: edit_request_def member_def own_props_def bson_def)
  have h: "map_of (hd (requestsCollection example_db)) ''status'' = Some (JStr ''done'')"
    "map_of (hd (requestsCollection example_db)) ''donorEmail'' = Some (JStr ''dan@x.org'')"
    "map_of (hd (requestsCollection example_db)) ''requesterEmail'' = Some (JStr ''alice@x.org'')"
    by (simp_all add: example_db_def)
  from r have q: "requestsCollection (snd (route_put_donation_request example_env edit_request
        example_db)) = pre @ d' # post" by simp
  have t: "map_of d' ''status'' = Some (JStr ''done'')"
    "map_of d' ''donorEmail'' = Some (JStr ''dan@x.org'')"
    "map_of d' ''requesterEmail'' = Some (JStr ''alice@x.org'')"
    using s de re h by simp_all
  have "map_option (\<lambda>d. (map_of d ''recipientName'', map_of d ''status'', map_of d ''donorEmail'',
                    map_of d ''requesterEmail''))
     (findOne (requestsCollection (snd (route_put_donation_request example_env edit_request
        example_db))) [(''_id'', JOid 16)])
     = Some (Some (JStr ''Uma''), Some (JStr ''done''), Some (JStr ''dan@x.org''),
             Some (JStr ''alice@x.org''))"
    unfolding q g using n t by simp
  with a o m show ?thesis by blast
qed

text \<open>
  C8. The monthly aggregation has one row for each bucket \<open>(month, year)\<close>, sorted by
  year and month; the count of a bucket is the number of requests whose projection is
  that bucket, a bucket without requests has no row, and the counts add up to the number
  of requests. The projection of a request is the bucket of its \<^verbatim>\<open>donationDate\<close> when
  the server can convert it, and the bucket of the current date when the field is
  missing, \<^verbatim>\<open>null\<close> or not convertible.
\<close>

theorem monthly_buckets:
  "distinct (map fst (monthlyStats e st)) \<and>
   sorted (map (\<lambda>((m, y), n). (y, m)) (monthlyStats e st)) \<and>
   map_of (monthlyStats e st) b =
     (if bucket_size e st b = 0 then None else Some (bucket_size e st b)) \<and>
   sum_list (map snd (monthlyStats e st)) = length (requestsCollection st) \<and>
   project e d = (case map_of d ''donationDate'' of
       None \<Rightarrow> (month e (now e), year e (now e))
     | Some v \<Rightarrow>
         if v = JNull then (month e (now e), year e (now e))
         else (case toDate e v of
                 None \<Rightarrow> (month e (now e), year e (now e))
               | Some t \<Rightarrow> (month e t, year e t)))"
proof -
  let ?rows = "group_count (map (project e) (requestsCollection st))"
  have d: "distinct (map fst ?rows)"
    by (simp add: group_count_def distinct_fold_count_in)
  then have 1: "distinct (map fst (monthlyStats e st))"
    by (simp add: monthlyStats_def distinct_map_sort_key)
  have 2: "sorted (map (\<lambda>((m, y), n). (y, m)) (monthlyStats e st))"
    by (simp add: monthlyStats_def)
  have "length (filter (\<lambda>k. k = b) (map (project e) (requestsCollection st))) = bucket_size e st b"
    by (simp add: bucket_size_def filter_map comp_def)
  then have 3: "map_of (monthlyStats e st) b =
     (if bucket_size e st b = 0 then None else Some (bucket_size e st b))"
    using d by (simp add: monthlyStats_def map_of_sort_key map_of_group_count)
  have 4: "sum_list (map snd (monthlyStats e st)) = length (requestsCollection st)"
    by (simp add: monthlyStats_def sum_sort_key group_count_def sum_fold_count_in)
  have 5: "project e d = (case map_of d ''donationDate'' of
       None \<Rightarrow> (month e (now e), year e (now e))
     | Some v \<Rightarrow>
         if v = JNull then (month e (now e), year e (now e))
         else (case toDate e v of
                 None \<Rightarrow> (month e (now e), year e (now e))
               | Some t \<Rightarrow> (month e t, year e t)))"
    by (simp add: project_def convert_def split: option.splits json.splits)
  from 1 2 3 4 5 show ?thesis by blast
qed

theorem monthly_buckets_witness:
  "map_of (hd (requestsCollection example_db)) ''donationDate'' = Some (JStr ''2024-02-10'') \<and>
   map_of (last (requestsCollection example_db)) ''donationDate'' = None \<and>
   project example_env (hd (requestsCollection example_db)) = (2, 2024) \<and>
   project example_env (last (requestsCollection example_db)) = (12, 2025) \<and>
   map_of (monthlyStats example_env example_db) (2, 2024) = Some 1 \<and>
   map_of (monthlyStats example_env example_db) (12, 2025) = Some 1 \<and>
   map_of (monthlyStats example_env example_db) (1, 2025) = None"
proof -
  have d0: "map_of (hd (requestsCollection example_db)) ''donationDate'' = Some (JStr ''2024-02-10'')"
    and d1: "map_of (last (requestsCollection example_db)) ''donationDate'' = None"
    by (simp_all add: example_db_def)
  have p: "project example_env d = (case map_of d ''donationDate'' of
       None \<Rightarrow> (month example_env (now example_env), year example_env (now example_env))
     | Some v \<Rightarrow>
         if v = JNull then (month example_env (now example_env), year example_env (now example_env))
         else (case toDate example_env v of
                 None \<Rightarrow> (month example_env (now example_env), year example_env (now example_env))
               | Some t \<Rightarrow> (month example_env t, year example_env t)))" for d
    using monthly_buckets [of example_env example_db "(2, 2024)" d] by (elim conjE)
  have p0: "project example_env (hd (requestsCollection example_db)) = (2, 2024)"
    unfolding p d0 by (simp add: example_env_def)
  have p1: "project example_env (last (requestsCollection example_db)) = (12, 2025)"
    unfolding p d1 by (simp add: example_env_def)
  have r: "requestsCollection example_db = [hd (requestsCollection example_db), last (requestsCollection example_db)]"
    by (simp add: example_db_def)
  have f: "filter (\<lambda>d. project example_env d = b) (requestsCollection example_db) =
      filter (\<lambda>d. project example_env d = b)
        [hd (requestsCollection example_db), last (requestsCollection example_db)]" for b
    using r by simp
  have b: "bucket_size example_env example_db (2, 2024) = 1"
    "bucket_size example_env example_db (12, 2025) = 1"
    "bucket_size example_env example_db (1, 2025) = 0"
    unfolding bucket_size_def f by (simp_all add: p0 p1)
  have m: "map_of (monthlyStats example_env example_db) k =
     (if bucket_size example_env example_db k = 0 then None
      else Some (bucket_size example_env example_db k))" for k
    using monthly_buckets [of example_env example_db k "[]"] by (elim conjE)
  have "map_of (monthlyStats example_env example_db) (2, 2024) = Some 1"
    "map_of (monthlyStats example_env example_db) (12, 2025) = Some 1"
    "map_of (monthlyStats example_env example_db) (1, 2025) = None"
    unfolding m b by simp_all
  with d0 d1 p0 p1 show ?thesis by blast
qed

text \<open>
  C9, as the code has it. For a caller reading their own statistics the level is
  \<^verbatim>\<open>Bronze\<close> up to five donations, \<^verbatim>\<open>Silver\<close> from six to ten and \<^verbatim>\<open>Gold\<close>
  from eleven on, the donations being the requests whose donor email is the caller's and
  whose status is \<^verbatim>\<open>done\<close>.
\<close>

theorem user_stats_level:
  assumes "authenticated e req user" and "email user = Some (param req)"
  shows "\<exists>b. route_user_stats e req st = (Sent 200 b, st) \<and>
     sent_field (Sent 200 b) ''level'' = Some (JStr
       (if length (donorStats st (param req)) \<le> 5 then ''Bronze''
        else if length (donorStats st (param req)) \<le> 10 then ''Silver'' else ''Gold''))"
  using assms
  by (simp add: route_user_stats_def verifyToken_authenticated get_user_stats_def Let_def
      sent_field_def level_def)

theorem user_stats_level_witness:
  "authenticated example_env stats_request \<lparr>email = Some ''dan@x.org''\<rparr> \<and>
   length (donorStats (stats_db 7) ''dan@x.org'') = 7 \<and>
   sent_field (fst (route_user_stats example_env stats_request (stats_db 7))) ''level''
     = Some (JStr ''Silver'')"
proof -
  have a: "authenticated example_env stats_request \<lparr>email = Some ''dan@x.org''\<rparr>"
    by (simp add: authenticated_def example_env_def stats_request_def)
  have p: "param stats_request = ''dan@x.org''" by (simp add: stats_request_def)
  have n: "length (donorStats (stats_db 7) ''dan@x.org'') = 7"
    by code_simp
  from user_stats_level [OF a, of "stats_db 7"] p n a show ?thesis by auto
qed

text \<open>
  With exactly five donations the level is \<^verbatim>\<open>Bronze\<close>, and with exactly ten it is
  \<^verbatim>\<open>Silver\<close>: each threshold itself still belongs to the lower level.
\<close>

theorem level_at_thresholds_counterexample:
  "length (donorStats (stats_db 5) ''dan@x.org'') = 5 \<and>
   sent_field (fst (route_user_stats example_env stats_request (stats_db 5))) ''level''
     = Some (JStr ''Bronze'') \<and>
   sent_field (fst (route_user_stats example_env stats_request (stats_db 5))) ''level''
     \<noteq> Some (JStr ''Silver'') \<and>
   length (donorStats (stats_db 10) ''dan@x.org'') = 10 \<and>
   sent_field (fst (route_user_stats example_env stats_request (stats_db 10))) ''level''
     = Some (JStr ''Silver'') \<and>
   sent_field (fst (route_user_stats example_env stats_request (stats_db 10))) ''level''
     \<noteq> Some (JStr ''Gold'')"
  by code_simp

text \<open>
  C10. When the token is accepted and no profile is stored for its email, both
  \<^verbatim>\<open>POST /donation-request\<close> and \<^verbatim>\<open>GET /all-blood-donation-requests\<close> read a
  property of \<^verbatim>\<open>null\<close>: a \<^verbatim>\<open>TypeError\<close> escapes, no response is sent and nothing
  is inserted.
\<close>

theorem missing_profile_throws:
  assumes "authenticated e req user"
    and "findOne (usersCollection st) [(''email'', email_value user)] = None"
  shows "route_post_donation_request e req st = (Thrown TypeError, st) \<and>
     route_get_all_blood_donation_requests e req st = (Thrown TypeError, st)"
  using assms
  by (simp add: route_post_donation_request_def route_get_all_blood_donation_requests_def
      verifyToken_authenticated post_donation_request_def get_all_blood_donation_requests_def)

theorem missing_profile_throws_witness:
  "authenticated example_env (create_request ''zed@x.org'') \<lparr>email = Some ''zed@x.org''\<rparr> \<and>
   route_post_donation_request example_env (create_request ''zed@x.org'') example_db
     = (Thrown TypeError, example_db) \<and>
   route_get_all_blood_donation_requests example_env (create_request ''zed@x.org'') example_db
     = (Thrown TypeError, example_db)"
proof -
  have a: "authenticated example_env (create_request ''zed@x.org'') \<lparr>email = Some ''zed@x.org''\<rparr>"
    by (simp add: authenticated_def example_env_def create_request_def)
  have f: "findOne (usersCollection example_db) [(''email'', email_value \<lparr>email = Some ''zed@x.org''\<rparr>)]
      = None"
    by code_simp
  from missing_profile_throws [OF a f] a show ?thesis by simp
qed

end
